theory Spec2Isabelle
  imports Main "HOL-Library.Sublist"
begin

section \<open>Go values used by main.go\<close>

text \<open>
  A Go slice is either nil or a sequence of elements; \<open>len\<close> and \<open>range\<close> treat nil as
  the empty sequence, while a comparison with nil tells the two apart.
\<close>

type_synonym 'a slice = "'a list option"

definition elems :: "'a slice \<Rightarrow> 'a list" where
  "elems s = (case s of None \<Rightarrow> [] | Some xs \<Rightarrow> xs)"

definition len :: "'a slice \<Rightarrow> nat" where
  "len s = length (elems s)"

text \<open>
  Values of type \<open>interface{}\<close> that the patch builder stores: strings, booleans, the
  empty array literal \<open>[]interface{}{}\<close> and the map literals of type \<open>m\<close>. A map literal
  is kept as its list of key/value pairs in the order of the source text.
\<close>

datatype jvalue =
    JString string
  | JBool bool
  | JArray "jvalue list"
  | JObject "(string \<times> jvalue) list"

text \<open>The struct \<open>p\<close>: one JSON-Patch operation.\<close>

record p =
  Op :: string
  Path :: string
  Value :: jvalue

text \<open>\<open>fmt.Sprintf("%d", i)\<close> for a slice index: the decimal digits of \<open>i\<close>.\<close>

definition digit :: "nat \<Rightarrow> char" where
  "digit d = ''0123456789'' ! d"

fun itoa :: "nat \<Rightarrow> string" where
  "itoa n = (if n < 10 then [digit n] else itoa (n div 10) @ [digit (n mod 10)])"

declare itoa.simps [simp del]

section \<open>The Kubernetes objects read by the program\<close>

datatype EnvVar = EnvVar string string

datatype VolumeMount = VolumeMount string string bool

record Container =
  ctrName :: string
  Env :: "EnvVar slice"
  VolumeMounts :: "VolumeMount slice"

record SecretVolumeSource =
  SecretName :: string

text \<open>\<open>Secret\<close> is a pointer in Go: \<open>None\<close> is nil.\<close>

record Volume =
  volName :: string
  Secret :: "SecretVolumeSource option"

record PodSpec =
  Volumes :: "Volume slice"
  Containers :: "Container slice"

record OwnerReference =
  ownerAPIVersion :: string
  ownerKind :: string
  ownerName :: string
  ownerUID :: string

record Pod =
  Kind :: string
  APIVersion :: string
  Name :: string
  Namespace :: string
  UID :: string
  ResourceVersion :: string
  Annotations :: "string \<rightharpoonup> string"
  OwnerReferences :: "OwnerReference slice"
  Spec :: PodSpec

text \<open>Reading a Go map at a missing key gives the zero value, the empty string.\<close>

definition annotation :: "Pod \<Rightarrow> string \<Rightarrow> string" where
  "annotation pod k = (case Annotations pod k of None \<Rightarrow> [] | Some v \<Rightarrow> v)"

record ObjectReference =
  refKind :: string
  refNamespace :: string
  refName :: string
  refUID :: string
  refAPIVersion :: string
  refResourceVersion :: string

record Event =
  InvolvedObject :: ObjectReference
  Reason :: string
  Message :: string

text \<open>
  The admission response. \<open>Patch\<close> holds the operation list that \<open>json.Marshal\<close>
  serialises (\<open>None\<close> when the field is left unset), \<open>PatchType\<close> and \<open>Result\<close> are
  pointers, and \<open>Result\<close> carries the status message.
\<close>

record AdmissionResponse =
  Allowed :: bool
  Patch :: "p list option"
  PatchType :: "string option"
  Result :: "string option"

section \<open>Effects and process state\<close>

text \<open>
  Everything the two components do to the outside: log lines, calls against the cluster
  API, increments of the two counter vectors, and sleeps. The trace lists them in the
  order in which the program performs them.
\<close>

datatype effect =
    LogInfo string
  | LogError string
  | LogFatal string
  | Sleep nat
  | ListPods
  | CreateEvent string Event
  | DeletePod string string
  | IncDeletes string string
  | IncPatches string string

record world =
  ctrDeletes :: "string \<times> string \<Rightarrow> nat"
  ctrPatches :: "string \<times> string \<Rightarrow> nat"
  trace :: "effect list"

definition emit :: "effect \<Rightarrow> world \<Rightarrow> world" where
  "emit e w = w\<lparr>trace := trace w @ [e]\<rparr>"

text \<open>\<open>ctrDeletes.WithLabelValues(ns, name).Inc()\<close>\<close>

definition incDeletes :: "string \<Rightarrow> string \<Rightarrow> world \<Rightarrow> world" where
  "incDeletes ns n w =
     emit (IncDeletes ns n) (w\<lparr>ctrDeletes := (ctrDeletes w)((ns, n) := Suc (ctrDeletes w (ns, n)))\<rparr>)"

text \<open>\<open>ctrPatches.WithLabelValues(ns, name).Inc()\<close>\<close>

definition incPatches :: "string \<Rightarrow> string \<Rightarrow> world \<Rightarrow> world" where
  "incPatches ns n w =
     emit (IncPatches ns n) (w\<lparr>ctrPatches := (ctrPatches w)((ns, n) := Suc (ctrPatches w (ns, n)))\<rparr>)"

section \<open>Constants\<close>

definition label :: string where
  "label = ''microcumul.us/injectssl''"

definition volumeName :: string where
  "volumeName = ''microcumulus-injected-ssl''"

section \<open>The admission handler\<close>

text \<open>The operations written out in the handler, by the line that builds them.\<close>

definition volumesInit :: p where
  "volumesInit = \<lparr>Op = ''add'', Path = ''/spec/volumes'', Value = JArray []\<rparr>"

definition volumeAdd :: "string \<Rightarrow> p" where
  "volumeAdd secret =
     \<lparr>Op = ''add'', Path = ''/spec/volumes/-'',
      Value = JObject [(''name'', JString volumeName),
                       (''secret'', JObject [(''secretName'', JString secret)])]\<rparr>"

definition envPath :: "nat \<Rightarrow> string" where
  "envPath i = ''/spec/containers/'' @ itoa i @ ''/env''"

definition envAppendPath :: "nat \<Rightarrow> string" where
  "envAppendPath i = ''/spec/containers/'' @ itoa i @ ''/env/-''"

definition mountsPath :: "nat \<Rightarrow> string" where
  "mountsPath i = ''/spec/containers/'' @ itoa i @ ''/volumeMounts''"

definition mountAppendPath :: "nat \<Rightarrow> string" where
  "mountAppendPath i = ''/spec/containers/'' @ itoa i @ ''/volumeMounts/-''"

definition envSSL :: "nat \<Rightarrow> p" where
  "envSSL i =
     \<lparr>Op = ''add'', Path = envAppendPath i,
      Value = JObject [(''name'', JString ''SSL_CERT_FILE''), (''value'', JString ''/ssl/ca.crt'')]\<rparr>"

definition envNode :: "nat \<Rightarrow> p" where
  "envNode i =
     \<lparr>Op = ''add'', Path = envAppendPath i,
      Value = JObject [(''name'', JString ''NODE_EXTRA_CA_CERTS''),
                       (''value'', JString ''/ssl/ca.crt'')]\<rparr>"

definition mountAdd :: "nat \<Rightarrow> p" where
  "mountAdd i =
     \<lparr>Op = ''add'', Path = mountAppendPath i,
      Value = JObject [(''name'', JString volumeName), (''mountPath'', JString ''/ssl''),
                       (''readOnly'', JBool True)]\<rparr>"

definition envInit :: "nat \<Rightarrow> p" where
  "envInit i = \<lparr>Op = ''add'', Path = envPath i, Value = JArray []\<rparr>"

definition mountsInit :: "nat \<Rightarrow> p" where
  "mountsInit i = \<lparr>Op = ''add'', Path = mountsPath i, Value = JArray []\<rparr>"

text \<open>
  The body of the loop over the containers (lines 115 to 152): the slice \<open>ps\<close> for the
  container at index \<open>i\<close>. Each of the two conditionals puts its operation in front of
  what \<open>ps\<close> holds at that point.
\<close>

definition ctrOps :: "nat \<Rightarrow> Container \<Rightarrow> p list" where
  "ctrOps i ctr =
     (let ps = [envSSL i, envNode i, mountAdd i];
          ps = (if Env ctr = None then [envInit i] @ ps else ps);
          ps = (if len (VolumeMounts ctr) = 0 then [mountsInit i] @ ps else ps)
      in ps)"

text \<open>\<open>for i, ctr := range pod.Spec.Containers\<close>, from index \<open>i\<close> on.\<close>

fun containersLoop :: "nat \<Rightarrow> Container list \<Rightarrow> p list \<Rightarrow> p list" where
  "containersLoop i [] patch = patch"
| "containersLoop i (ctr # ctrs) patch = containersLoop (Suc i) ctrs (patch @ ctrOps i ctr)"

text \<open>Lines 93 to 155: the patch for a pod whose annotation is set.\<close>

definition buildPatch :: "Pod \<Rightarrow> p list" where
  "buildPatch pod =
     (let patch = [];
          patch = (if Volumes (Spec pod) = None then patch @ [volumesInit] else patch);
          patch = patch @ [volumeAdd (annotation pod label)]
      in containersLoop 0 (elems (Containers (Spec pod))) patch)"

text \<open>
  The handler passed to \<open>admitFunc\<close>. Its argument is the outcome of decoding the raw
  object of the request: \<open>Inl\<close> the decoder's error, \<open>Inr\<close> the pod. The result is the
  handler's error or its response, with the state after its effects.
\<close>

definition admit :: "string + Pod \<Rightarrow> world \<Rightarrow> (string + AdmissionResponse) \<times> world" where
  "admit decoded w =
     (case decoded of
        Inl err \<Rightarrow> (Inl err, emit (LogError ''could not deserialize pod spec'') w)
      | Inr pod \<Rightarrow>
          if annotation pod label = []
          then (Inr \<lparr>Allowed = True, Patch = None, PatchType = None, Result = None\<rparr>,
                emit (LogInfo ''allowing'') w)
          else
            let w1 = emit (LogInfo ''will patch'') w;
                patch = buildPatch pod;
                w2 = incPatches (Namespace pod) (Name pod) w1;
                w3 = emit (LogInfo ''patching'') w2
            in (Inr \<lparr>Allowed = True, Patch = Some patch, PatchType = Some ''JSONPatch'',
                      Result = Some ''modified''\<rparr>, w3))"

section \<open>The reconciler\<close>

text \<open>
  Lines 232 to 236: the scan of the pod's volumes. \<open>True\<close> is the \<open>continue items\<close>
  taken at the first volume whose secret source carries the name looked for.
\<close>

fun isCompliant :: "Volume list \<Rightarrow> string \<Rightarrow> bool" where
  "isCompliant [] secret = False"
| "isCompliant (vol # vols) secret =
     (case Secret vol of
        None \<Rightarrow> isCompliant vols secret
      | Some src \<Rightarrow> if SecretName src = secret then True else isCompliant vols secret)"

text \<open>Lines 202 to 219: the object the event is attached to.\<close>

definition involved :: "Pod \<Rightarrow> ObjectReference" where
  "involved pod =
     (case elems (OwnerReferences pod) of
        [] \<Rightarrow> \<lparr>refKind = Kind pod, refNamespace = Namespace pod, refName = Name pod,
                refUID = UID pod, refAPIVersion = APIVersion pod,
                refResourceVersion = ResourceVersion pod\<rparr>
      | owner # _ \<Rightarrow> \<lparr>refKind = ownerKind owner, refNamespace = Namespace pod,
                       refName = ownerName owner, refUID = ownerUID owner,
                       refAPIVersion = ownerAPIVersion owner, refResourceVersion = []\<rparr>)"

text \<open>
  The event of lines 221 to 225. The parameter \<open>quote\<close> is the rendering of the verb
  \<open>%q\<close> of \<open>fmt.Sprintf\<close>.
\<close>

definition podEvent :: "(string \<Rightarrow> string) \<Rightarrow> Pod \<Rightarrow> Event" where
  "podEvent quote pod =
     \<lparr>InvolvedObject = involved pod, Reason = ''Deleting pod'',
      Message = ''pod annotation on '' @ quote (Name pod) @
                '' has not been applied by ca-injector mutatingadmissionwebhook''\<rparr>"

text \<open>
  The body of the loop over the listed pods (lines 197 to 243). \<open>del ns n\<close> is the
  error returned by the cluster for the delete call, \<open>None\<close> when it succeeds. The result
  of the event creation is dropped by the program.
\<close>

definition reconcilePod ::
  "(string \<Rightarrow> string) \<Rightarrow> (string \<Rightarrow> string \<Rightarrow> string option) \<Rightarrow> Pod \<Rightarrow> world \<Rightarrow> world" where
  "reconcilePod quote del pod w =
     (let w1 = emit (CreateEvent (Namespace pod) (podEvent quote pod)) w;
          secret = annotation pod label
      in if secret = [] then w1
         else if isCompliant (elems (Volumes (Spec pod))) secret then w1
         else
           let w2 = emit (LogInfo ''deleting pod; CA env and mount not found'') w1;
               w3 = incDeletes (Namespace pod) (Name pod) w2;
               w4 = emit (DeletePod (Namespace pod) (Name pod)) w3
           in case del (Namespace pod) (Name pod) of
                None \<Rightarrow> w4
              | Some err \<Rightarrow> emit (LogError ''error deleting pod'') w4)"

text \<open>\<open>for _, pod := range pods.Items\<close>\<close>

fun itemsLoop ::
  "(string \<Rightarrow> string) \<Rightarrow> (string \<Rightarrow> string \<Rightarrow> string option) \<Rightarrow> Pod list \<Rightarrow> world \<Rightarrow> world" where
  "itemsLoop quote del [] w = w"
| "itemsLoop quote del (pod # pods) w = itemsLoop quote del pods (reconcilePod quote del pod w)"

text \<open>
  What one pass meets: the error of \<open>kubernetes.NewForConfigOrDie\<close> if it has one (the
  function then panics), the result of the listing (\<open>Inl\<close> its error) and the result of
  each delete call.
\<close>

record passEnv =
  clientResult :: "string option"
  listResult :: "string + Pod list"
  deleteResult :: "string \<Rightarrow> string \<Rightarrow> string option"

text \<open>
  The state of the process after a step: still running, ended by \<open>os.Exit\<close> with the
  given status, or ended by a panic. \<open>Fatal\<close> of logrus writes the entry and then calls
  \<open>os.Exit(1)\<close>.
\<close>

datatype status = Running | Exited nat | Panicked

text \<open>One pass: lines 188 to 244.\<close>

definition pass :: "(string \<Rightarrow> string) \<Rightarrow> passEnv \<Rightarrow> world \<Rightarrow> status \<times> world" where
  "pass quote env w =
     (case clientResult env of
        Some err \<Rightarrow> (Panicked, w)
      | None \<Rightarrow>
          let w1 = emit ListPods w
          in case listResult env of
               Inl err \<Rightarrow> (Exited 1, emit (LogFatal ''error listing pods'') w1)
             | Inr pods \<Rightarrow> (Running, itemsLoop quote (deleteResult env) pods w1))"

text \<open>
  The endless loop of lines 182 to 245, run against the answers of the cluster for the
  passes to come, one entry per pass; \<open>f\<close> is the flag of the source. The run ends with
  \<open>Running\<close> when the answers are used up and the process is still alive.
\<close>

fun passes :: "(string \<Rightarrow> string) \<Rightarrow> bool \<Rightarrow> passEnv list \<Rightarrow> world \<Rightarrow> status \<times> world" where
  "passes quote f [] w = (Running, w)"
| "passes quote f (env # envs) w =
     (let w1 = (if f then emit (Sleep 60) w else w)
      in case pass quote env w1 of
           (Running, w2) \<Rightarrow> passes quote True envs w2
         | (Exited code, w2) \<Rightarrow> (Exited code, w2)
         | (Panicked, w2) \<Rightarrow> (Panicked, w2))"

text \<open>The goroutine of lines 178 to 246.\<close>

definition reconciler :: "(string \<Rightarrow> string) \<Rightarrow> passEnv list \<Rightarrow> world \<Rightarrow> status \<times> world" where
  "reconciler quote envs w = passes quote False envs (emit (Sleep 5) w)"

section \<open>Notions used in the statements\<close>

text \<open>An append operation of JSON Patch is one whose path ends in \<open>/-\<close>.\<close>

definition isAppend :: "p \<Rightarrow> bool" where
  "isAppend oper = suffix ''/-'' (Path oper)"

text \<open>The events that a trace creates, in order, each with the namespace it is created in.\<close>

fun eventsOf :: "effect list \<Rightarrow> (string \<times> Event) list" where
  "eventsOf [] = []"
| "eventsOf (CreateEvent ns ev # es) = (ns, ev) # eventsOf es"
| "eventsOf (e # es) = eventsOf es"

section \<open>Example inputs\<close>

text \<open>
  A container with a nil environment and an empty list of volume mounts, and the pod
  \<open>default/worker-1\<close>: annotated with the secret \<open>ca-secret\<close>, two such containers, no
  volumes.
\<close>

definition bare :: Container where
  "bare = \<lparr>ctrName = ''app'', Env = None, VolumeMounts = Some []\<rparr>"

definition worker1 :: Pod where
  "worker1 =
     \<lparr>Kind = ''Pod'', APIVersion = ''v1'', Name = ''worker-1'', Namespace = ''default'',
      UID = ''uid-1'', ResourceVersion = ''7'',
      Annotations = [''microcumul.us/injectssl'' \<mapsto> ''ca-secret''],
      OwnerReferences = None,
      Spec = \<lparr>Volumes = None, Containers = Some [bare, bare]\<rparr>\<rparr>"

definition w0 :: world where
  "w0 = \<lparr>ctrDeletes = (\<lambda>k. 0), ctrPatches = (\<lambda>k. 0), trace = []\<rparr>"

text \<open>
  Further containers and pods: a container that has an environment and a mount already, one
  whose environment is an empty list that is not nil, a pod without the annotation, one
  whose annotation is the empty string, and two annotated pods built from these containers.
\<close>

definition volData :: Volume where
  "volData = \<lparr>volName = ''data'', Secret = None\<rparr>"

definition withEnv :: Container where
  "withEnv = \<lparr>ctrName = ''sidecar'', Env = Some [EnvVar ''MODE'' ''fast''],
              VolumeMounts = Some [VolumeMount ''data'' ''/data'' False]\<rparr>"

definition emptyEnv :: Container where
  "emptyEnv = \<lparr>ctrName = ''app'', Env = Some [], VolumeMounts = Some []\<rparr>"

definition unmarked :: Pod where
  "unmarked = worker1\<lparr>Annotations := Map.empty,
                Spec := \<lparr>Volumes = Some [volData], Containers = Some [bare, withEnv, bare]\<rparr>\<rparr>"

definition blank :: Pod where
  "blank = worker1\<lparr>Annotations := [''microcumul.us/injectssl'' \<mapsto> []]\<rparr>"

definition solo :: Pod where
  "solo = worker1\<lparr>Spec := \<lparr>Volumes = None, Containers = Some [emptyEnv]\<rparr>\<rparr>"

definition mixed :: Pod where
  "mixed = worker1\<lparr>Spec := \<lparr>Volumes = Some [volData], Containers = Some [bare, withEnv]\<rparr>\<rparr>"

text \<open>
  For the reconciler: a volume backed by the secret \<open>ca-secret\<close>, an owner reference, a pod
  that carries the injected volume and has an owner, a pod without the annotation, a
  rendering of \<open>%q\<close> for names that need no escaping, a cluster whose delete calls fail,
  and two passes, one whose listing succeeds and one whose listing fails.
\<close>

definition plainQuote :: "string \<Rightarrow> string" where
  "plainQuote s = [CHR 0x22] @ s @ [CHR 0x22]"

definition caVolume :: Volume where
  "caVolume = \<lparr>volName = ''microcumulus-injected-ssl'',
               Secret = Some \<lparr>SecretName = ''ca-secret''\<rparr>\<rparr>"

definition replicaSet :: OwnerReference where
  "replicaSet = \<lparr>ownerAPIVersion = ''apps/v1'', ownerKind = ''ReplicaSet'',
                 ownerName = ''worker'', ownerUID = ''uid-rs''\<rparr>"

definition mutated :: Pod where
  "mutated = worker1\<lparr>Name := ''worker-2'', UID := ''uid-2'',
               OwnerReferences := Some [replicaSet],
               Spec := \<lparr>Volumes = Some [volData, caVolume], Containers = Some [withEnv]\<rparr>\<rparr>"

definition bystander :: Pod where
  "bystander = unmarked\<lparr>Name := ''worker-3'', UID := ''uid-3''\<rparr>"

definition failDelete :: "string \<Rightarrow> string \<Rightarrow> string option" where
  "failDelete ns n = Some ''pods not found''"

definition listWorks :: passEnv where
  "listWorks = \<lparr>clientResult = None, listResult = Inr [worker1, mutated, bystander],
                deleteResult = failDelete\<rparr>"

definition listFails :: passEnv where
  "listFails = \<lparr>clientResult = None, listResult = Inl ''connection refused'',
                deleteResult = failDelete\<rparr>"

section \<open>Decimal rendering\<close>

text \<open>Two indices with the same decimal digits are the same index.\<close>

lemma digit_inj: "a < 10 \<Longrightarrow> b < 10 \<Longrightarrow> digit a = digit b \<Longrightarrow> a = b"
proof -
  assume a: "a < 10" and b: "b < 10" and e: "digit a = digit b"
  from a have "a \<in> {0,1,2,3,4,5,6,7,8,9}" by auto
  moreover from b have "b \<in> {0,1,2,3,4,5,6,7,8,9}" by auto
  ultimately show ?thesis using e
    by (auto simp: digit_def)
qed

lemma itoa_length: "0 < length (itoa n)"
  by (subst itoa.simps) simp

lemma itoa_length_ge10: "10 \<le> n \<Longrightarrow> 2 \<le> length (itoa n)"
proof -
  assume "10 \<le> n"
  then have "itoa n = itoa (n div 10) @ [digit (n mod 10)]" by (subst itoa.simps) simp
  moreover have "1 \<le> length (itoa (n div 10))" using itoa_length [of "n div 10"] by arith
  ultimately show ?thesis by simp
qed

lemma itoa_inj: "itoa n = itoa m \<Longrightarrow> n = m"
proof (induction n arbitrary: m rule: itoa.induct)
  case (1 n)
  show ?case
  proof (cases "n < 10")
    case True
    then have ln: "length (itoa n) = 1" by (subst itoa.simps) simp
    show ?thesis
    proof (cases "m < 10")
      case m: True
      from "1.prems" True m have "digit n = digit m"
        by (simp add: itoa.simps [of n] itoa.simps [of m])
      with True m show ?thesis by (auto intro: digit_inj)
    next
      case False
      then have "2 \<le> length (itoa m)" by (simp add: itoa_length_ge10)
      with ln "1.prems" show ?thesis by simp
    qed
  next
    case False
    then have n10: "10 \<le> n" by simp
    show ?thesis
    proof (cases "m < 10")
      case True
      then have "length (itoa m) = 1" by (subst itoa.simps) simp
      moreover have "2 \<le> length (itoa n)" using n10 by (rule itoa_length_ge10)
      ultimately show ?thesis using "1.prems" by simp
    next
      case m: False
      from "1.prems" False m
      have e: "itoa (n div 10) @ [digit (n mod 10)] = itoa (m div 10) @ [digit (m mod 10)]"
        by (simp add: itoa.simps [of n] itoa.simps [of m])
      then have "itoa (n div 10) = itoa (m div 10)" and d: "digit (n mod 10) = digit (m mod 10)"
        by simp_all
      with "1.IH" False have q: "n div 10 = m div 10" by simp
      have "n mod 10 = m mod 10" using d by (intro digit_inj) simp_all
      with q show ?thesis by (metis div_mult_mod_eq)
    qed
  qed
qed

section \<open>Operation paths\<close>

text \<open>
  Two strings that end differently are different, whatever stands in front: the paths of
  the four kinds of container operation never coincide, and a path names one index.
\<close>

lemma tail_clash:
  assumes "x @ s = y @ t" and "length s \<le> length t"
  shows "s = drop (length t - length s) t"
proof -
  have "s = drop (length (x @ s) - length s) (x @ s)" by simp
  also have "\<dots> = drop (length (y @ t) - length s) (y @ t)" using assms(1) by simp
  also have "\<dots> = drop (length t - length s) t" using assms(2) by simp
  finally show ?thesis .
qed

lemma envPath_inj [simp]: "envPath i = envPath j \<longleftrightarrow> i = j"
  by (auto simp: envPath_def dest: itoa_inj)
lemma envAppendPath_inj [simp]: "envAppendPath i = envAppendPath j \<longleftrightarrow> i = j"
  by (auto simp: envAppendPath_def dest: itoa_inj)
lemma mountsPath_inj [simp]: "mountsPath i = mountsPath j \<longleftrightarrow> i = j"
  by (auto simp: mountsPath_def dest: itoa_inj)
lemma mountAppendPath_inj [simp]: "mountAppendPath i = mountAppendPath j \<longleftrightarrow> i = j"
  by (auto simp: mountAppendPath_def dest: itoa_inj)

lemma path_kinds [simp]:
  "envPath i \<noteq> envAppendPath j" "envAppendPath j \<noteq> envPath i"
  "envPath i \<noteq> mountsPath j" "mountsPath j \<noteq> envPath i"
  "envPath i \<noteq> mountAppendPath j" "mountAppendPath j \<noteq> envPath i"
  "envAppendPath i \<noteq> mountsPath j" "mountsPath j \<noteq> envAppendPath i"
  "envAppendPath i \<noteq> mountAppendPath j" "mountAppendPath j \<noteq> envAppendPath i"
  "mountsPath i \<noteq> mountAppendPath j" "mountAppendPath j \<noteq> mountsPath i"
  by (auto simp: envPath_def envAppendPath_def mountsPath_def mountAppendPath_def
      dest: tail_clash)

lemma path_volumes [simp]:
  "envPath i \<noteq> ''/spec/volumes/-''" "envAppendPath i \<noteq> ''/spec/volumes/-''"
  "mountsPath i \<noteq> ''/spec/volumes/-''" "mountAppendPath i \<noteq> ''/spec/volumes/-''"
  "envPath i \<noteq> ''/spec/volumes''" "envAppendPath i \<noteq> ''/spec/volumes''"
  "mountsPath i \<noteq> ''/spec/volumes''" "mountAppendPath i \<noteq> ''/spec/volumes''"
  "''/spec/volumes/-'' \<noteq> envPath i" "''/spec/volumes/-'' \<noteq> envAppendPath i"
  "''/spec/volumes/-'' \<noteq> mountsPath i" "''/spec/volumes/-'' \<noteq> mountAppendPath i"
  "''/spec/volumes'' \<noteq> envPath i" "''/spec/volumes'' \<noteq> envAppendPath i"
  "''/spec/volumes'' \<noteq> mountsPath i" "''/spec/volumes'' \<noteq> mountAppendPath i"
  by (simp_all add: envPath_def envAppendPath_def mountsPath_def mountAppendPath_def)

lemma isAppend_ops [simp]:
  "isAppend (volumeAdd s)" "\<not> isAppend volumesInit"
  "isAppend (envSSL i)" "isAppend (envNode i)" "isAppend (mountAdd i)"
  "\<not> isAppend (envInit i)" "\<not> isAppend (mountsInit i)"
  by (auto simp: isAppend_def volumeAdd_def volumesInit_def envSSL_def envNode_def mountAdd_def envInit_def mountsInit_def
     envPath_def envAppendPath_def mountsPath_def mountAppendPath_def suffix_def dest: tail_clash)

section \<open>The shape of the patch\<close>

lemma containersLoop_eq:
  "containersLoop i ctrs patch = patch @ concat (map (\<lambda>(j, c). ctrOps j c) (enumerate i ctrs))"
  by (induction ctrs arbitrary: i patch) simp_all

lemma buildPatch_eq:
  "buildPatch pod =
     (if Volumes (Spec pod) = None then [volumesInit] else []) @
     [volumeAdd (annotation pod label)] @
     concat (map (\<lambda>(j, c). ctrOps j c) (enumerate 0 (elems (Containers (Spec pod)))))"
  by (simp add: buildPatch_def containersLoop_eq)

lemma ctrOps_eq:
  "ctrOps i ctr =
     (if len (VolumeMounts ctr) = 0 then [mountsInit i] else []) @
     (if Env ctr = None then [envInit i] else []) @
     [envSSL i, envNode i, mountAdd i]"
  by (simp add: ctrOps_def Let_def)

lemma admit_patch:
  "annotation pod label \<noteq> [] \<Longrightarrow>
   fst (admit (Inr pod) w) =
     Inr \<lparr>Allowed = True, Patch = Some (buildPatch pod), PatchType = Some ''JSONPatch'',
          Result = Some ''modified''\<rparr>"
  by (simp add: admit_def Let_def)

lemma filter_concat_none:
  "(\<And>x. x \<in> set xs \<Longrightarrow> filter P (f x) = []) \<Longrightarrow> filter P (concat (map f xs)) = []"
  by (induction xs) simp_all

lemma filter_concat_enumerate:
  assumes other: "\<And>j c. j \<noteq> i \<Longrightarrow> filter P (f j c) = []"
    and lo: "k \<le> i" and hi: "i < k + length cs"
  shows "filter P (concat (map (\<lambda>(j, c). f j c) (enumerate k cs))) = filter P (f i (cs ! (i - k)))"
  using lo hi
proof (induction cs arbitrary: k)
  case Nil
  then show ?case by simp
next
  case (Cons c cs)
  show ?case
  proof (cases "i = k")
    case True
    have "filter P (concat (map (\<lambda>(j, c). f j c) (enumerate (Suc k) cs))) = []"
    proof (rule filter_concat_none)
      fix x assume "x \<in> set (enumerate (Suc k) cs)"
      then have "fst x \<noteq> i" using True by (auto simp: in_set_enumerate_eq)
      then show "filter P (case x of (j, c) \<Rightarrow> f j c) = []"
        by (cases x) (simp add: other)
    qed
    with True show ?thesis by simp
  next
    case False
    with Cons.prems have "Suc k \<le> i" "i < Suc k + length cs" by simp_all
    from Cons.IH [OF this] False Cons.prems show ?thesis
      by (simp add: other Suc_diff_le)
  qed
qed

lemma ctrOps_isAppend: "filter isAppend (ctrOps i ctr) = [envSSL i, envNode i, mountAdd i]"
  by (simp add: ctrOps_eq)

lemma filter_concat_map: "filter P (concat (map f xs)) = concat (map (\<lambda>x. filter P (f x)) xs)"
  by (induction xs) simp_all

lemma map_enumerate_fst: "map (\<lambda>(j, c). g j) (enumerate k cs) = map g [k..<k + length cs]"
proof (induction cs arbitrary: k)
  case Nil
  show ?case by simp
next
  case (Cons c cs)
  have "[k..<k + length (c # cs)] = k # [Suc k..<Suc k + length cs]"
    by (simp add: upt_conv_Cons del: upt_Suc)
  with Cons.IH [of "Suc k"] show ?case by simp
qed

lemma Path_ops [simp]:
  "Path volumesInit = ''/spec/volumes''" "Path (volumeAdd s) = ''/spec/volumes/-''"
  "Path (envInit i) = envPath i" "Path (envSSL i) = envAppendPath i"
  "Path (envNode i) = envAppendPath i" "Path (mountsInit i) = mountsPath i"
  "Path (mountAdd i) = mountAppendPath i"
  by (simp_all add: volumesInit_def volumeAdd_def envInit_def envSSL_def envNode_def
      mountsInit_def mountAdd_def)

lemma buildPatch_isAppend:
  "filter isAppend (buildPatch pod) =
     volumeAdd (annotation pod label) #
     concat (map (\<lambda>i. [envSSL i, envNode i, mountAdd i]) [0..<len (Containers (Spec pod))])"
proof -
  have "filter isAppend (concat (map (\<lambda>(j, c). ctrOps j c) (enumerate 0 (elems (Containers (Spec pod))))))
      = concat (map (\<lambda>(j, c). [envSSL j, envNode j, mountAdd j]) (enumerate 0 (elems (Containers (Spec pod)))))"
    by (simp add: filter_concat_map case_prod_unfold ctrOps_isAppend)
  also have "\<dots> = concat (map (\<lambda>i. [envSSL i, envNode i, mountAdd i]) [0..<len (Containers (Spec pod))])"
    by (simp add: map_enumerate_fst len_def)
  finally show ?thesis by (simp add: buildPatch_eq)
qed

lemma buildPatch_filter_ctr:
  assumes other: "\<And>j c. j \<noteq> i \<Longrightarrow> filter P (ctrOps j c) = []"
    and vol: "\<not> P volumesInit" "\<not> P (volumeAdd (annotation pod label))"
    and i: "i < len (Containers (Spec pod))"
  shows "filter P (buildPatch pod) = filter P (ctrOps i (elems (Containers (Spec pod)) ! i))"
proof -
  have "filter P (concat (map (\<lambda>(j, c). ctrOps j c) (enumerate 0 (elems (Containers (Spec pod))))))
      = filter P (ctrOps i (elems (Containers (Spec pod)) ! (i - 0)))"
    using i by (intro filter_concat_enumerate other) (simp_all add: len_def)
  then show ?thesis using vol by (simp add: buildPatch_eq)
qed

lemma buildPatch_envAppends:
  assumes "i < len (Containers (Spec pod))"
  shows "filter (\<lambda>oper. Path oper = envAppendPath i) (buildPatch pod) = [envSSL i, envNode i]"
proof -
  have "filter (\<lambda>oper. Path oper = envAppendPath i) (buildPatch pod) =
        filter (\<lambda>oper. Path oper = envAppendPath i) (ctrOps i (elems (Containers (Spec pod)) ! i))"
    using assms by (intro buildPatch_filter_ctr) (simp_all add: ctrOps_eq)
  then show ?thesis by (simp add: ctrOps_eq)
qed

lemma buildPatch_mountAppends:
  assumes "i < len (Containers (Spec pod))"
  shows "filter (\<lambda>oper. Path oper = mountAppendPath i) (buildPatch pod) = [mountAdd i]"
proof -
  have "filter (\<lambda>oper. Path oper = mountAppendPath i) (buildPatch pod) =
        filter (\<lambda>oper. Path oper = mountAppendPath i) (ctrOps i (elems (Containers (Spec pod)) ! i))"
    using assms by (intro buildPatch_filter_ctr) (simp_all add: ctrOps_eq)
  then show ?thesis by (simp add: ctrOps_eq)
qed

lemma buildPatch_volumeAdds:
  "filter (\<lambda>oper. Path oper = ''/spec/volumes/-'') (buildPatch pod) = [volumeAdd (annotation pod label)]"
proof -
  have "filter (\<lambda>oper. Path oper = ''/spec/volumes/-'')
          (concat (map (\<lambda>(j, c). ctrOps j c) (enumerate 0 (elems (Containers (Spec pod)))))) = []"
    by (rule filter_concat_none) (auto simp: ctrOps_eq)
  then show ?thesis by (simp add: buildPatch_eq)
qed

lemma buildPatch_envOps:
  assumes "i < len (Containers (Spec pod))"
  shows "filter (\<lambda>oper. Path oper = envPath i \<or> Path oper = envAppendPath i) (buildPatch pod) =
           (if Env (elems (Containers (Spec pod)) ! i) = None then [envInit i] else []) @
           [envSSL i, envNode i]"
proof -
  let ?P = "\<lambda>oper. Path oper = envPath i \<or> Path oper = envAppendPath i"
  have "filter ?P (buildPatch pod) = filter ?P (ctrOps i (elems (Containers (Spec pod)) ! i))"
    using assms by (intro buildPatch_filter_ctr) (simp_all add: ctrOps_eq)
  then show ?thesis by (simp add: ctrOps_eq)
qed
lemma itoa_small [simp]: "itoa 0 = ''0''" "itoa 1 = ''1''" "itoa (Suc 0) = ''1''" "itoa 2 = ''2''"
  by (simp_all add: itoa.simps digit_def)

section \<open>The effects of the reconciler\<close>

lemma isCompliant_iff:
  "isCompliant vols secret \<longleftrightarrow>
     (\<exists>vol \<in> set vols. \<exists>src. Secret vol = Some src \<and> SecretName src = secret)"
  by (induction vols) (auto split: option.splits)

lemma eventsOf_append: "eventsOf (xs @ ys) = eventsOf xs @ eventsOf ys"
  by (induction xs rule: eventsOf.induct) simp_all

lemma reconcilePod_trace:
  "trace (reconcilePod quote del pod w) =
     trace w @ [CreateEvent (Namespace pod) (podEvent quote pod)] @
     (if annotation pod label = [] \<or>
         isCompliant (elems (Volumes (Spec pod))) (annotation pod label) then []
      else [LogInfo ''deleting pod; CA env and mount not found'',
            IncDeletes (Namespace pod) (Name pod), DeletePod (Namespace pod) (Name pod)] @
           (case del (Namespace pod) (Name pod) of None \<Rightarrow> []
            | Some err \<Rightarrow> [LogError ''error deleting pod'']))"
  by (simp add: reconcilePod_def Let_def emit_def incDeletes_def split: option.splits)

lemma reconcilePod_ctrDeletes:
  "ctrDeletes (reconcilePod quote del pod w) k =
     ctrDeletes w k +
     (if k = (Namespace pod, Name pod) \<and> annotation pod label \<noteq> [] \<and>
         \<not> isCompliant (elems (Volumes (Spec pod))) (annotation pod label) then 1 else 0)"
  by (simp add: reconcilePod_def Let_def emit_def incDeletes_def split: option.splits)

lemma reconcilePod_ctrPatches:
  "ctrPatches (reconcilePod quote del pod w) = ctrPatches w"
  by (simp add: reconcilePod_def Let_def emit_def incDeletes_def split: option.splits)

lemma itemsLoop_events:
  "eventsOf (trace (itemsLoop quote del pods w)) =
     eventsOf (trace w) @ map (\<lambda>pod. (Namespace pod, podEvent quote pod)) pods"
  by (induction pods arbitrary: w)
     (simp_all add: reconcilePod_trace eventsOf_append split: option.splits)

lemma itemsLoop_deletes:
  "count_list (trace (itemsLoop quote del pods w)) (DeletePod ns n) =
     count_list (trace w) (DeletePod ns n) +
     length (filter (\<lambda>pod. (Namespace pod, Name pod) = (ns, n) \<and> annotation pod label \<noteq> [] \<and>
         \<not> isCompliant (elems (Volumes (Spec pod))) (annotation pod label)) pods)"
  by (induction pods arbitrary: w)
     (auto simp: reconcilePod_trace split: option.splits)

lemma itemsLoop_incs:
  "count_list (trace (itemsLoop quote del pods w)) (IncDeletes ns n) =
     count_list (trace w) (IncDeletes ns n) +
     length (filter (\<lambda>pod. (Namespace pod, Name pod) = (ns, n) \<and> annotation pod label \<noteq> [] \<and>
         \<not> isCompliant (elems (Volumes (Spec pod))) (annotation pod label)) pods)"
  by (induction pods arbitrary: w)
     (auto simp: reconcilePod_trace split: option.splits)

lemma itemsLoop_ctrDeletes:
  "ctrDeletes (itemsLoop quote del pods w) (ns, n) =
     ctrDeletes w (ns, n) +
     length (filter (\<lambda>pod. (Namespace pod, Name pod) = (ns, n) \<and> annotation pod label \<noteq> [] \<and>
         \<not> isCompliant (elems (Volumes (Spec pod))) (annotation pod label)) pods)"
  by (induction pods arbitrary: w)
     (auto simp: reconcilePod_ctrDeletes)

lemma filter_key_distinct:
  "distinct (map f xs) \<Longrightarrow> x \<in> set xs \<Longrightarrow>
   length (filter (\<lambda>y. f y = f x \<and> P y) xs) = (if P x then 1 else 0)"
proof (induction xs)
  case Nil
  then show ?case by simp
next
  case (Cons a xs)
  show ?case
  proof (cases "a = x")
    case True
    from Cons.prems(1) True have "f x \<notin> f ` set xs" by simp
    then have "\<forall>y \<in> set xs. f y \<noteq> f x" by (metis imageI)
    then have "filter (\<lambda>y. f y = f x \<and> P y) xs = []" by (auto simp: filter_empty_conv)
    with True show ?thesis by simp
  next
    case False
    with Cons.prems have x: "x \<in> set xs" and d: "distinct (map f xs)" by auto
    from Cons.prems(1) have "f a \<notin> f ` set xs" by simp
    with x have "f a \<noteq> f x" by (metis imageI)
    with Cons.IH [OF d x] show ?thesis by simp
  qed
qed

lemma pass_ok:
  "clientResult env = None \<Longrightarrow> listResult env = Inr pods \<Longrightarrow>
   pass quote env w = (Running, itemsLoop quote (deleteResult env) pods (emit ListPods w))"
  by (simp add: pass_def)

section \<open>The handler's two answers\<close>

lemma admit_allow:
  "annotation pod label = [] \<Longrightarrow>
   admit (Inr pod) w =
     (Inr \<lparr>Allowed = True, Patch = None, PatchType = None, Result = None\<rparr>,
      emit (LogInfo ''allowing'') w)"
  by (simp add: admit_def)

section \<open>Facts about the example inputs\<close>

lemma worker1_facts:
  "annotation worker1 label = ''ca-secret''"
  "Volumes (Spec worker1) = None"
  "Containers (Spec worker1) = Some [bare, bare]"
  "Env bare = None" "len (VolumeMounts bare) = 0"
  by (simp_all add: worker1_def annotation_def label_def bare_def len_def elems_def)

lemma buildPatch_worker1:
  "buildPatch worker1 =
     [volumesInit, volumeAdd ''ca-secret'',
      mountsInit 0, envInit 0, envSSL 0, envNode 0, mountAdd 0,
      mountsInit 1, envInit 1, envSSL 1, envNode 1, mountAdd 1]"
  by (simp add: buildPatch_eq ctrOps_eq worker1_facts elems_def)

lemma solo_facts:
  "annotation solo label = ''ca-secret''"
  "Volumes (Spec solo) = None"
  "Containers (Spec solo) = Some [emptyEnv]"
  "Env emptyEnv = Some []" "VolumeMounts emptyEnv = Some []"
  by (simp_all add: solo_def worker1_def annotation_def label_def emptyEnv_def len_def elems_def)

lemma mixed_facts:
  "annotation mixed label = ''ca-secret''"
  "Containers (Spec mixed) = Some [bare, withEnv]"
  "len (Containers (Spec mixed)) = 2"
  "Env withEnv = Some [EnvVar ''MODE'' ''fast'']"
  by (simp_all add: mixed_def worker1_def annotation_def label_def withEnv_def len_def elems_def)

lemma mutated_facts:
  "annotation mutated label = ''ca-secret''"
  "elems (Volumes (Spec mutated)) = [volData, caVolume]"
  "Secret volData = None" "Secret caVolume = Some \<lparr>SecretName = ''ca-secret''\<rparr>"
  "Namespace mutated = ''default''" "Name mutated = ''worker-2''"
  by (simp_all add: mutated_def worker1_def annotation_def label_def elems_def volData_def
      caVolume_def)

lemma listWorks_facts:
  "clientResult listWorks = None"
  "listResult listWorks = Inr [worker1, mutated, bystander]"
  "deleteResult listWorks = failDelete"
  by (simp_all add: listWorks_def)

lemma example_keys:
  "Namespace worker1 = ''default''" "Name worker1 = ''worker-1''"
  "Namespace mutated = ''default''" "Name mutated = ''worker-2''"
  "Namespace bystander = ''default''" "Name bystander = ''worker-3''"
  by (simp_all add: worker1_def mutated_def bystander_def unmarked_def)

lemma example_pods:
  "annotation worker1 label = ''ca-secret''" "elems (Volumes (Spec worker1)) = []"
  "annotation mutated label = ''ca-secret''"
  "elems (Volumes (Spec mutated)) = [volData, caVolume]"
  "annotation bystander label = []"
  "Secret volData = None" "Secret caVolume = Some \<lparr>SecretName = ''ca-secret''\<rparr>"
  by (simp_all add: worker1_def mutated_def bystander_def unmarked_def annotation_def label_def
      elems_def volData_def caVolume_def)

section \<open>Patch completeness\<close>

text \<open>
  Claim C1. For a pod with \<open>N\<close> containers whose trigger annotation has the non-empty value
  \<open>S\<close>, the handler answers with a patch in which exactly one operation has the path
  \<open>/spec/volumes/-\<close>, and its value names the secret \<open>S\<close> under the fixed volume name; for
  each index \<open>i < N\<close> the operations on \<open>/spec/containers/i/env/-\<close> are exactly the two
  environment variables with value \<open>/ssl/ca.crt\<close>, and the operations on
  \<open>/spec/containers/i/volumeMounts/-\<close> are exactly the one read-only mount at \<open>/ssl\<close>; and
  the append operations of the whole patch are these and no others.
\<close>

theorem patch_completeness:
  assumes "annotation pod label = S" and "S \<noteq> []"
  shows "\<exists>patch.
    fst (admit (Inr pod) w) =
      Inr \<lparr>Allowed = True, Patch = Some patch, PatchType = Some ''JSONPatch'',
           Result = Some ''modified''\<rparr> \<and>
    filter (\<lambda>oper. Path oper = ''/spec/volumes/-'') patch =
      [\<lparr>Op = ''add'', Path = ''/spec/volumes/-'',
        Value = JObject [(''name'', JString volumeName),
                         (''secret'', JObject [(''secretName'', JString S)])]\<rparr>] \<and>
    (\<forall>i < len (Containers (Spec pod)).
       filter (\<lambda>oper. Path oper = ''/spec/containers/'' @ itoa i @ ''/env/-'') patch =
         [\<lparr>Op = ''add'', Path = ''/spec/containers/'' @ itoa i @ ''/env/-'',
           Value = JObject [(''name'', JString ''SSL_CERT_FILE''),
                            (''value'', JString ''/ssl/ca.crt'')]\<rparr>,
          \<lparr>Op = ''add'', Path = ''/spec/containers/'' @ itoa i @ ''/env/-'',
           Value = JObject [(''name'', JString ''NODE_EXTRA_CA_CERTS''),
                            (''value'', JString ''/ssl/ca.crt'')]\<rparr>] \<and>
       filter (\<lambda>oper. Path oper = ''/spec/containers/'' @ itoa i @ ''/volumeMounts/-'') patch =
         [\<lparr>Op = ''add'', Path = ''/spec/containers/'' @ itoa i @ ''/volumeMounts/-'',
           Value = JObject [(''name'', JString volumeName), (''mountPath'', JString ''/ssl''),
                            (''readOnly'', JBool True)]\<rparr>]) \<and>
    filter isAppend patch =
      volumeAdd S # concat (map (\<lambda>i. [envSSL i, envNode i, mountAdd i])
                                 [0..<len (Containers (Spec pod))])"
proof (intro exI conjI allI impI)
  show "fst (admit (Inr pod) w) =
      Inr \<lparr>Allowed = True, Patch = Some (buildPatch pod), PatchType = Some ''JSONPatch'',
           Result = Some ''modified''\<rparr>"
    using assms by (simp add: admit_patch)
  show "filter (\<lambda>oper. Path oper = ''/spec/volumes/-'') (buildPatch pod) =
      [\<lparr>Op = ''add'', Path = ''/spec/volumes/-'',
        Value = JObject [(''name'', JString volumeName),
                         (''secret'', JObject [(''secretName'', JString S)])]\<rparr>]"
    using buildPatch_volumeAdds [of pod] assms(1) by (simp add: volumeAdd_def)
  show "filter isAppend (buildPatch pod) =
      volumeAdd S # concat (map (\<lambda>i. [envSSL i, envNode i, mountAdd i])
                                 [0..<len (Containers (Spec pod))])"
    using buildPatch_isAppend [of pod] assms(1) by simp
next
  fix i assume i: "i < len (Containers (Spec pod))"
  from buildPatch_envAppends [OF i]
  show "filter (\<lambda>oper. Path oper = ''/spec/containers/'' @ itoa i @ ''/env/-'') (buildPatch pod) =
         [\<lparr>Op = ''add'', Path = ''/spec/containers/'' @ itoa i @ ''/env/-'',
           Value = JObject [(''name'', JString ''SSL_CERT_FILE''),
                            (''value'', JString ''/ssl/ca.crt'')]\<rparr>,
          \<lparr>Op = ''add'', Path = ''/spec/containers/'' @ itoa i @ ''/env/-'',
           Value = JObject [(''name'', JString ''NODE_EXTRA_CA_CERTS''),
                            (''value'', JString ''/ssl/ca.crt'')]\<rparr>]"
    by (simp add: envSSL_def envNode_def envAppendPath_def)
  from buildPatch_mountAppends [OF i]
  show "filter (\<lambda>oper. Path oper = ''/spec/containers/'' @ itoa i @ ''/volumeMounts/-'') (buildPatch pod) =
         [\<lparr>Op = ''add'', Path = ''/spec/containers/'' @ itoa i @ ''/volumeMounts/-'',
           Value = JObject [(''name'', JString volumeName), (''mountPath'', JString ''/ssl''),
                            (''readOnly'', JBool True)]\<rparr>]"
    by (simp add: mountAdd_def mountAppendPath_def)
qed

theorem patch_completeness_witness:
  "annotation worker1 label = ''ca-secret'' \<and>
   (\<exists>patch.
      fst (admit (Inr worker1) w0) =
        Inr \<lparr>Allowed = True, Patch = Some patch, PatchType = Some ''JSONPatch'',
             Result = Some ''modified''\<rparr> \<and>
      length (filter (\<lambda>oper. Path oper = ''/spec/volumes/-'') patch) = 1 \<and>
      length (filter (\<lambda>oper. Path oper = ''/spec/containers/1/env/-'') patch) = 2 \<and>
      length (filter (\<lambda>oper. Path oper = ''/spec/containers/1/volumeMounts/-'') patch) = 1 \<and>
      length (filter isAppend patch) = 7)"
proof -
  have a: "annotation worker1 label = ''ca-secret''"
    by (simp add: annotation_def worker1_def label_def)
  have b: "''ca-secret'' \<noteq> []" by simp
  have n: "len (Containers (Spec worker1)) = 2"
    by (simp add: worker1_def len_def elems_def)
  from patch_completeness [OF a b, of w0] obtain patch where
    r: "fst (admit (Inr worker1) w0) =
        Inr \<lparr>Allowed = True, Patch = Some patch, PatchType = Some ''JSONPatch'',
             Result = Some ''modified''\<rparr>"
    and v: "length (filter (\<lambda>oper. Path oper = ''/spec/volumes/-'') patch) = 1"
    and c: "\<forall>i < len (Containers (Spec worker1)).
       length (filter (\<lambda>oper. Path oper = ''/spec/containers/'' @ itoa i @ ''/env/-'') patch) = 2 \<and>
       length (filter (\<lambda>oper. Path oper = ''/spec/containers/'' @ itoa i @ ''/volumeMounts/-'') patch) = 1"
    and f: "filter isAppend patch =
      volumeAdd ''ca-secret'' # concat (map (\<lambda>i. [envSSL i, envNode i, mountAdd i])
                                 [0..<len (Containers (Spec worker1))])"
    by auto
  have "1 < len (Containers (Spec worker1))" using n by simp
  with c have "length (filter (\<lambda>oper. Path oper = ''/spec/containers/'' @ itoa 1 @ ''/env/-'') patch) = 2 \<and>
       length (filter (\<lambda>oper. Path oper = ''/spec/containers/'' @ itoa 1 @ ''/volumeMounts/-'') patch) = 1"
    by blast
  then have c1: "length (filter (\<lambda>oper. Path oper = ''/spec/containers/1/env/-'') patch) = 2"
    and c2: "length (filter (\<lambda>oper. Path oper = ''/spec/containers/1/volumeMounts/-'') patch) = 1"
    by simp_all
  have "[0..<len (Containers (Spec worker1))] = [0, 1]" using n by (simp add: upt_conv_Cons)
  with f have "length (filter isAppend patch) = 7" by simp
  with a r v c1 c2 show ?thesis by blast
qed

section \<open>Pods without the trigger annotation\<close>

text \<open>
  Claim C4. For a pod whose trigger annotation is absent or is the empty string, the handler
  answers allowed with no patch, whatever its containers and volumes are; its only effect
  is a log line.
\<close>

theorem allow_unchanged:
  assumes "Annotations pod label = None \<or> Annotations pod label = Some []"
  shows "admit (Inr pod) w =
     (Inr \<lparr>Allowed = True, Patch = None, PatchType = None, Result = None\<rparr>,
      w\<lparr>trace := trace w @ [LogInfo ''allowing'']\<rparr>)"
proof -
  from assms have "annotation pod label = []"
    by (auto simp: annotation_def)
  then show ?thesis by (simp add: admit_allow emit_def)
qed

theorem allow_unchanged_witness:
  "Annotations unmarked label = None \<and>
   len (Containers (Spec unmarked)) = 3 \<and> len (Volumes (Spec unmarked)) = 1 \<and>
   fst (admit (Inr unmarked) w0) =
     Inr \<lparr>Allowed = True, Patch = None, PatchType = None, Result = None\<rparr> \<and>
   Annotations blank label = Some [] \<and>
   fst (admit (Inr blank) w0) =
     Inr \<lparr>Allowed = True, Patch = None, PatchType = None, Result = None\<rparr>"
proof -
  have a: "Annotations unmarked label = None"
    by (simp add: unmarked_def)
  have b: "Annotations blank label = Some []"
    by (simp add: blank_def label_def)
  have n: "len (Containers (Spec unmarked)) = 3 \<and> len (Volumes (Spec unmarked)) = 1"
    by (simp add: unmarked_def len_def elems_def)
  from a have "Annotations unmarked label = None \<or> Annotations unmarked label = Some []" ..
  from allow_unchanged [OF this, of w0]
  have r1: "fst (admit (Inr unmarked) w0) =
     Inr \<lparr>Allowed = True, Patch = None, PatchType = None, Result = None\<rparr>" by simp
  from b have "Annotations blank label = None \<or> Annotations blank label = Some []" ..
  from allow_unchanged [OF this, of w0]
  have r2: "fst (admit (Inr blank) w0) =
     Inr \<lparr>Allowed = True, Patch = None, PatchType = None, Result = None\<rparr>" by simp
  from a b n r1 r2 show ?thesis by simp
qed

section \<open>The worked example\<close>

text \<open>
  Claim C8 as stated, at the pod \<open>default/worker-1\<close>: annotation \<open>ca-secret\<close>, two containers
  with nil environment and empty mounts, and no volumes (the volume list is nil). The patch
  has twelve operations, not eleven: the volume list gets its array first, so there are two
  volume operations.
\<close>

theorem eleven_operations_counterexample:
  "annotation worker1 label = ''ca-secret'' \<and>
   Volumes (Spec worker1) = None \<and>
   Containers (Spec worker1) = Some [bare, bare] \<and>
   Env bare = None \<and> len (VolumeMounts bare) = 0 \<and>
   fst (admit (Inr worker1) w0) =
     Inr \<lparr>Allowed = True, Patch = Some (buildPatch worker1), PatchType = Some ''JSONPatch'',
          Result = Some ''modified''\<rparr> \<and>
   length (buildPatch worker1) = 12 \<and>
   length (buildPatch worker1) \<noteq> 11 \<and>
   take 2 (buildPatch worker1) = [volumesInit, volumeAdd ''ca-secret'']"
  by (simp add: worker1_facts admit_patch buildPatch_worker1)

text \<open>
  Claim C8, amended. For a pod annotated with \<open>ca-secret\<close> that has two containers, each
  with a nil environment and no volume mounts, and no volumes: the patch is the volume
  operations followed by five operations per container (array for the mounts, array for the
  environment, two environment appends, one mount append). When the volume list is nil the
  volume operations are two, the array and the append, and the patch has 12 operations;
  when the volume list is empty but not nil there is only the append, and the patch has 11.
\<close>

theorem twelve_operations:
  assumes "annotation pod label = ''ca-secret''"
    and "Containers (Spec pod) = Some [c1, c2]"
    and "Env c1 = None" and "len (VolumeMounts c1) = 0"
    and "Env c2 = None" and "len (VolumeMounts c2) = 0"
    and "len (Volumes (Spec pod)) = 0"
  shows "\<exists>patch.
    fst (admit (Inr pod) w) =
      Inr \<lparr>Allowed = True, Patch = Some patch, PatchType = Some ''JSONPatch'',
           Result = Some ''modified''\<rparr> \<and>
    patch = (if Volumes (Spec pod) = None then [volumesInit] else []) @
            [volumeAdd ''ca-secret''] @
            [mountsInit 0, envInit 0, envSSL 0, envNode 0, mountAdd 0] @
            [mountsInit 1, envInit 1, envSSL 1, envNode 1, mountAdd 1] \<and>
    length patch = (if Volumes (Spec pod) = None then 12 else 11)"
proof -
  have "buildPatch pod = (if Volumes (Spec pod) = None then [volumesInit] else []) @
            [volumeAdd ''ca-secret''] @
            [mountsInit 0, envInit 0, envSSL 0, envNode 0, mountAdd 0] @
            [mountsInit 1, envInit 1, envSSL 1, envNode 1, mountAdd 1]"
    using assms by (simp add: buildPatch_eq ctrOps_eq elems_def)
  moreover have "fst (admit (Inr pod) w) =
      Inr \<lparr>Allowed = True, Patch = Some (buildPatch pod), PatchType = Some ''JSONPatch'',
           Result = Some ''modified''\<rparr>"
    using assms(1) by (simp add: admit_patch)
  ultimately show ?thesis by simp
qed

theorem twelve_operations_witness:
  "annotation worker1 label = ''ca-secret'' \<and>
   Containers (Spec worker1) = Some [bare, bare] \<and>
   Env bare = None \<and> len (VolumeMounts bare) = 0 \<and>
   len (Volumes (Spec worker1)) = 0 \<and> Volumes (Spec worker1) = None \<and>
   (\<exists>patch.
      fst (admit (Inr worker1) w0) =
        Inr \<lparr>Allowed = True, Patch = Some patch, PatchType = Some ''JSONPatch'',
             Result = Some ''modified''\<rparr> \<and>
      length patch = 12)"
proof -
  have v: "len (Volumes (Spec worker1)) = 0"
    by (simp add: worker1_facts len_def elems_def)
  from twelve_operations [OF worker1_facts(1) worker1_facts(3) worker1_facts(4)
      worker1_facts(5) worker1_facts(4) worker1_facts(5) v, of w0]
  have "\<exists>patch.
      fst (admit (Inr worker1) w0) =
        Inr \<lparr>Allowed = True, Patch = Some patch, PatchType = Some ''JSONPatch'',
             Result = Some ''modified''\<rparr> \<and>
      length patch = 12"
    by (simp add: worker1_facts)
  with v show ?thesis by (simp add: worker1_facts)
qed

section \<open>Order of the operations of a container\<close>

text \<open>
  Claim C5 as stated, at the pod \<open>default/worker-1\<close>: for its first container the claim
  gives the order environment array, two environment appends, mount array, mount append.
  The handler puts the mount array first.
\<close>

theorem container_order_counterexample:
  "annotation worker1 label = ''ca-secret'' \<and>
   Containers (Spec worker1) = Some [bare, bare] \<and>
   Env bare = None \<and> len (VolumeMounts bare) = 0 \<and>
   fst (admit (Inr worker1) w0) =
     Inr \<lparr>Allowed = True, Patch = Some (buildPatch worker1), PatchType = Some ''JSONPatch'',
          Result = Some ''modified''\<rparr> \<and>
   map Path (buildPatch worker1) =
     [''/spec/volumes'', ''/spec/volumes/-'',
      ''/spec/containers/0/volumeMounts'', ''/spec/containers/0/env'',
      ''/spec/containers/0/env/-'', ''/spec/containers/0/env/-'',
      ''/spec/containers/0/volumeMounts/-'',
      ''/spec/containers/1/volumeMounts'', ''/spec/containers/1/env'',
      ''/spec/containers/1/env/-'', ''/spec/containers/1/env/-'',
      ''/spec/containers/1/volumeMounts/-''] \<and>
   ctrOps 0 bare = [mountsInit 0, envInit 0, envSSL 0, envNode 0, mountAdd 0] \<and>
   ctrOps 0 bare \<noteq> [envInit 0, envSSL 0, envNode 0, mountsInit 0, mountAdd 0]"
  by (simp add: worker1_facts admit_patch buildPatch_worker1 ctrOps_eq
      envPath_def envAppendPath_def mountsPath_def mountAppendPath_def
      envInit_def mountsInit_def)

text \<open>
  Claim C5, amended. For every container of a pod being mutated, the operations of the
  container appear in the order: array for the volume mounts (only when the container has no
  mounts), array for the environment (only when the environment is nil), the two
  environment appends, the mount append; the containers follow each other in their order in
  the pod, after the volume operations, and every path of a container's operations carries
  the decimal index of the container after \<open>/spec/containers/\<close>.
\<close>

theorem container_order:
  assumes "annotation pod label \<noteq> []"
  shows "fst (admit (Inr pod) w) =
      Inr \<lparr>Allowed = True,
           Patch = Some
             ((if Volumes (Spec pod) = None then [volumesInit] else []) @
              [volumeAdd (annotation pod label)] @
              concat (map (\<lambda>(i, ctr).
                        (if len (VolumeMounts ctr) = 0 then [mountsInit i] else []) @
                        (if Env ctr = None then [envInit i] else []) @
                        [envSSL i, envNode i, mountAdd i])
                      (enumerate 0 (elems (Containers (Spec pod)))))),
           PatchType = Some ''JSONPatch'', Result = Some ''modified''\<rparr> \<and>
    (\<forall>i. map Path [mountsInit i, envInit i, envSSL i, envNode i, mountAdd i] =
          map (\<lambda>rest. ''/spec/containers/'' @ itoa i @ rest)
            [''/volumeMounts'', ''/env'', ''/env/-'', ''/env/-'', ''/volumeMounts/-''])"
proof -
  have "(\<lambda>(j, c). ctrOps j c) =
        (\<lambda>(i, ctr). (if len (VolumeMounts ctr) = 0 then [mountsInit i] else []) @
                     (if Env ctr = None then [envInit i] else []) @
                     [envSSL i, envNode i, mountAdd i])"
    by (simp add: ctrOps_eq fun_eq_iff)
  then have bp: "buildPatch pod =
      (if Volumes (Spec pod) = None then [volumesInit] else []) @
      [volumeAdd (annotation pod label)] @
      concat (map (\<lambda>(i, ctr).
                (if len (VolumeMounts ctr) = 0 then [mountsInit i] else []) @
                (if Env ctr = None then [envInit i] else []) @
                [envSSL i, envNode i, mountAdd i])
              (enumerate 0 (elems (Containers (Spec pod)))))"
    by (simp only: buildPatch_eq)
  have r: "fst (admit (Inr pod) w) =
      Inr \<lparr>Allowed = True, Patch = Some (buildPatch pod), PatchType = Some ''JSONPatch'',
           Result = Some ''modified''\<rparr>"
    using assms by (simp add: admit_patch)
  have "fst (admit (Inr pod) w) =
      Inr \<lparr>Allowed = True,
           Patch = Some
             ((if Volumes (Spec pod) = None then [volumesInit] else []) @
              [volumeAdd (annotation pod label)] @
              concat (map (\<lambda>(i, ctr).
                        (if len (VolumeMounts ctr) = 0 then [mountsInit i] else []) @
                        (if Env ctr = None then [envInit i] else []) @
                        [envSSL i, envNode i, mountAdd i])
                      (enumerate 0 (elems (Containers (Spec pod)))))),
           PatchType = Some ''JSONPatch'', Result = Some ''modified''\<rparr>"
    by (simp only: r bp)
  moreover have "\<forall>i. map Path [mountsInit i, envInit i, envSSL i, envNode i, mountAdd i] =
          map (\<lambda>rest. ''/spec/containers/'' @ itoa i @ rest)
            [''/volumeMounts'', ''/env'', ''/env/-'', ''/env/-'', ''/volumeMounts/-'']"
    by (simp add: envPath_def envAppendPath_def mountsPath_def mountAppendPath_def)
  ultimately show ?thesis by (rule conjI)
qed

theorem container_order_witness:
  "annotation worker1 label \<noteq> [] \<and>
   fst (admit (Inr worker1) w0) =
      Inr \<lparr>Allowed = True,
           Patch = Some
             [volumesInit, volumeAdd ''ca-secret'',
              mountsInit 0, envInit 0, envSSL 0, envNode 0, mountAdd 0,
              mountsInit 1, envInit 1, envSSL 1, envNode 1, mountAdd 1],
           PatchType = Some ''JSONPatch'', Result = Some ''modified''\<rparr>"
proof -
  have a: "annotation worker1 label \<noteq> []" by (simp add: worker1_facts)
  from container_order [OF a, of w0] a show ?thesis
    by (simp add: worker1_facts elems_def)
qed

section \<open>The environment array\<close>

text \<open>
  Claim C6 as stated, at a pod whose only container has an environment list that is empty
  and not nil: the claim asks for one operation on \<open>/spec/containers/0/env\<close>, and the patch
  has none.
\<close>

theorem conditional_env_init_counterexample:
  "annotation solo label = ''ca-secret'' \<and>
   Containers (Spec solo) = Some [emptyEnv] \<and>
   len (Env emptyEnv) = 0 \<and>
   fst (admit (Inr solo) w0) =
     Inr \<lparr>Allowed = True, Patch = Some (buildPatch solo), PatchType = Some ''JSONPatch'',
          Result = Some ''modified''\<rparr> \<and>
   buildPatch solo =
     [volumesInit, volumeAdd ''ca-secret'', mountsInit 0, envSSL 0, envNode 0, mountAdd 0] \<and>
   map Path (buildPatch solo) =
     [''/spec/volumes'', ''/spec/volumes/-'', ''/spec/containers/0/volumeMounts'',
      ''/spec/containers/0/env/-'', ''/spec/containers/0/env/-'',
      ''/spec/containers/0/volumeMounts/-''] \<and>
   ''/spec/containers/0/env'' \<notin> set (map Path (buildPatch solo))"
  by (simp add: solo_facts admit_patch buildPatch_eq ctrOps_eq elems_def len_def
      envPath_def envAppendPath_def mountsPath_def mountAppendPath_def)

text \<open>
  Claim C6, amended. For the container at index \<open>i\<close> of a pod being mutated, the operations
  of the patch on the environment of that container (paths \<open>/spec/containers/i/env\<close> and
  \<open>/spec/containers/i/env/-\<close>) are: when the environment is not nil, empty or not, the two
  appends and nothing else; when the environment is nil, one operation setting the empty
  array, followed by the two appends.
\<close>

theorem conditional_env_init:
  assumes "annotation pod label \<noteq> []" and "i < len (Containers (Spec pod))"
  shows "\<exists>patch.
    fst (admit (Inr pod) w) =
      Inr \<lparr>Allowed = True, Patch = Some patch, PatchType = Some ''JSONPatch'',
           Result = Some ''modified''\<rparr> \<and>
    filter (\<lambda>oper. Path oper = ''/spec/containers/'' @ itoa i @ ''/env'' \<or>
                   Path oper = ''/spec/containers/'' @ itoa i @ ''/env/-'') patch =
      (if Env (elems (Containers (Spec pod)) ! i) = None
       then [\<lparr>Op = ''add'', Path = ''/spec/containers/'' @ itoa i @ ''/env'', Value = JArray []\<rparr>]
       else []) @
      [envSSL i, envNode i]"
proof -
  have "fst (admit (Inr pod) w) =
      Inr \<lparr>Allowed = True, Patch = Some (buildPatch pod), PatchType = Some ''JSONPatch'',
           Result = Some ''modified''\<rparr>"
    using assms(1) by (simp add: admit_patch)
  moreover from buildPatch_envOps [OF assms(2)]
  have "filter (\<lambda>oper. Path oper = ''/spec/containers/'' @ itoa i @ ''/env'' \<or>
                   Path oper = ''/spec/containers/'' @ itoa i @ ''/env/-'') (buildPatch pod) =
      (if Env (elems (Containers (Spec pod)) ! i) = None
       then [\<lparr>Op = ''add'', Path = ''/spec/containers/'' @ itoa i @ ''/env'', Value = JArray []\<rparr>]
       else []) @
      [envSSL i, envNode i]"
    by (simp add: envPath_def envAppendPath_def envInit_def)
  ultimately show ?thesis by blast
qed

theorem conditional_env_init_witness:
  "annotation mixed label \<noteq> [] \<and> 0 < len (Containers (Spec mixed)) \<and>
   1 < len (Containers (Spec mixed)) \<and>
   Env (elems (Containers (Spec mixed)) ! 0) = None \<and>
   Env (elems (Containers (Spec mixed)) ! 1) = Some [EnvVar ''MODE'' ''fast''] \<and>
   (\<exists>patch.
      fst (admit (Inr mixed) w0) =
        Inr \<lparr>Allowed = True, Patch = Some patch, PatchType = Some ''JSONPatch'',
             Result = Some ''modified''\<rparr> \<and>
      filter (\<lambda>oper. Path oper = ''/spec/containers/0/env'' \<or>
                     Path oper = ''/spec/containers/0/env/-'') patch =
        [envInit 0, envSSL 0, envNode 0] \<and>
      filter (\<lambda>oper. Path oper = ''/spec/containers/1/env'' \<or>
                     Path oper = ''/spec/containers/1/env/-'') patch =
        [envSSL 1, envNode 1])"
proof -
  have a: "annotation mixed label \<noteq> []" by (simp add: mixed_facts)
  have i0: "0 < len (Containers (Spec mixed))" and i1: "1 < len (Containers (Spec mixed))"
    by (simp_all add: mixed_facts len_def elems_def)
  have e0: "Env (elems (Containers (Spec mixed)) ! 0) = None"
    and e1: "Env (elems (Containers (Spec mixed)) ! 1) = Some [EnvVar ''MODE'' ''fast'']"
    by (simp_all add: mixed_facts elems_def worker1_facts)
  from conditional_env_init [OF a i0, of w0] obtain p0 where
    r0: "fst (admit (Inr mixed) w0) =
        Inr \<lparr>Allowed = True, Patch = Some p0, PatchType = Some ''JSONPatch'',
             Result = Some ''modified''\<rparr>"
    and f0: "filter (\<lambda>oper. Path oper = ''/spec/containers/0/env'' \<or>
                     Path oper = ''/spec/containers/0/env/-'') p0 =
        [envInit 0, envSSL 0, envNode 0]"
    using e0 by (auto simp: envInit_def envPath_def)
  from conditional_env_init [OF a i1, of w0] obtain p1 where
    r1: "fst (admit (Inr mixed) w0) =
        Inr \<lparr>Allowed = True, Patch = Some p1, PatchType = Some ''JSONPatch'',
             Result = Some ''modified''\<rparr>"
    and f1: "filter (\<lambda>oper. Path oper = ''/spec/containers/1/env'' \<or>
                     Path oper = ''/spec/containers/1/env/-'') p1 =
        [envSSL 1, envNode 1]"
    using e1 by auto
  from r0 r1 have "p1 = p0" by simp
  with a i0 i1 e0 e1 r0 f0 f1 show ?thesis by blast
qed

section \<open>The compliance predicate\<close>

text \<open>
  Claim C2. For every pod, the scan of the reconciler finds the pod compliant if and only
  if the volume list of the pod has a volume with a secret source whose secret name equals
  the value of the trigger annotation. Hence after any change of the annotation value or of
  a volume's secret name that leaves no volume whose secret name equals the annotation
  value, the scan finds the pod not compliant.
\<close>

theorem compliance_predicate:
  "(isCompliant (elems (Volumes (Spec pod))) (annotation pod label) \<longleftrightarrow>
      (\<exists>vol \<in> set (elems (Volumes (Spec pod))).
         \<exists>src. Secret vol = Some src \<and> SecretName src = annotation pod label)) \<and>
   ((\<forall>vol \<in> set (elems (Volumes (Spec pod))).
       \<forall>src. Secret vol = Some src \<longrightarrow> SecretName src \<noteq> annotation pod label) \<longrightarrow>
    \<not> isCompliant (elems (Volumes (Spec pod))) (annotation pod label))"
  by (auto simp: isCompliant_iff)

theorem compliance_predicate_witness:
  "isCompliant (elems (Volumes (Spec mutated))) (annotation mutated label) \<and>
   caVolume \<in> set (elems (Volumes (Spec mutated))) \<and>
   Secret caVolume = Some \<lparr>SecretName = ''ca-secret''\<rparr> \<and>
   annotation mutated label = ''ca-secret'' \<and>
   annotation (mutated\<lparr>Annotations := [label \<mapsto> ''other-secret'']\<rparr>) label = ''other-secret'' \<and>
   \<not> isCompliant (elems (Volumes (Spec (mutated\<lparr>Annotations := [label \<mapsto> ''other-secret'']\<rparr>))))
        (annotation (mutated\<lparr>Annotations := [label \<mapsto> ''other-secret'']\<rparr>) label) \<and>
   \<not> isCompliant
        (elems (Volumes (Spec (mutated\<lparr>Spec := \<lparr>Volumes = Some [volData,
             caVolume\<lparr>Secret := Some \<lparr>SecretName = ''other-secret''\<rparr>\<rparr>],
             Containers = Some [withEnv]\<rparr>\<rparr>))))
        (annotation (mutated\<lparr>Spec := \<lparr>Volumes = Some [volData,
             caVolume\<lparr>Secret := Some \<lparr>SecretName = ''other-secret''\<rparr>\<rparr>],
             Containers = Some [withEnv]\<rparr>\<rparr>) label)"
proof -
  let ?a = "mutated\<lparr>Annotations := [label \<mapsto> ''other-secret'']\<rparr>"
  let ?v = "mutated\<lparr>Spec := \<lparr>Volumes = Some [volData,
             caVolume\<lparr>Secret := Some \<lparr>SecretName = ''other-secret''\<rparr>\<rparr>],
             Containers = Some [withEnv]\<rparr>\<rparr>"
  have m: "\<exists>vol \<in> set (elems (Volumes (Spec mutated))).
         \<exists>src. Secret vol = Some src \<and> SecretName src = annotation mutated label"
    by (simp add: mutated_facts)
  have c: "isCompliant (elems (Volumes (Spec mutated))) (annotation mutated label)"
    using compliance_predicate [of mutated] m by blast
  have aa: "annotation ?a label = ''other-secret''" by (simp add: annotation_def)
  have "\<forall>vol \<in> set (elems (Volumes (Spec ?a))).
       \<forall>src. Secret vol = Some src \<longrightarrow> SecretName src \<noteq> annotation ?a label"
    by (simp add: aa mutated_facts)
  then have na: "\<not> isCompliant (elems (Volumes (Spec ?a))) (annotation ?a label)"
    using compliance_predicate [of ?a] by blast
  have "\<forall>vol \<in> set (elems (Volumes (Spec ?v))).
       \<forall>src. Secret vol = Some src \<longrightarrow> SecretName src \<noteq> annotation ?v label"
    using mutated_facts(1) by (simp add: annotation_def elems_def mutated_facts caVolume_def)
  then have nv: "\<not> isCompliant (elems (Volumes (Spec ?v))) (annotation ?v label)"
    using compliance_predicate [of ?v] by blast
  from c na nv aa show ?thesis by (simp add: mutated_facts)
qed

section \<open>Remediation\<close>

text \<open>
  Claim C3. In a pass whose listing succeeds, the listed pods being told apart by namespace
  and name: for a listed pod with a non-empty trigger annotation and no volume whose secret
  source matches it, the pass issues exactly one delete call with the pod's namespace and
  name, and increments the deletion counter labelled with them exactly once; for a listed
  pod that is compliant, or whose annotation is absent or empty, the pass issues no such
  delete call and no such increment.
\<close>

theorem reconciler_remediation:
  assumes "clientResult env = None" and "listResult env = Inr pods"
    and "distinct (map (\<lambda>p. (Namespace p, Name p)) pods)" and "pod \<in> set pods"
  shows
   "(annotation pod label \<noteq> [] \<and>
     \<not> (\<exists>vol \<in> set (elems (Volumes (Spec pod))).
          \<exists>src. Secret vol = Some src \<and> SecretName src = annotation pod label) \<longrightarrow>
       count_list (trace (snd (pass quote env w))) (DeletePod (Namespace pod) (Name pod)) =
         count_list (trace w) (DeletePod (Namespace pod) (Name pod)) + 1 \<and>
       count_list (trace (snd (pass quote env w))) (IncDeletes (Namespace pod) (Name pod)) =
         count_list (trace w) (IncDeletes (Namespace pod) (Name pod)) + 1 \<and>
       ctrDeletes (snd (pass quote env w)) (Namespace pod, Name pod) =
         ctrDeletes w (Namespace pod, Name pod) + 1) \<and>
    (annotation pod label = [] \<or>
     (\<exists>vol \<in> set (elems (Volumes (Spec pod))).
          \<exists>src. Secret vol = Some src \<and> SecretName src = annotation pod label) \<longrightarrow>
       count_list (trace (snd (pass quote env w))) (DeletePod (Namespace pod) (Name pod)) =
         count_list (trace w) (DeletePod (Namespace pod) (Name pod)) \<and>
       count_list (trace (snd (pass quote env w))) (IncDeletes (Namespace pod) (Name pod)) =
         count_list (trace w) (IncDeletes (Namespace pod) (Name pod)) \<and>
       ctrDeletes (snd (pass quote env w)) (Namespace pod, Name pod) =
         ctrDeletes w (Namespace pod, Name pod))"
proof -
  let ?broken = "\<lambda>p. annotation p label \<noteq> [] \<and>
                    \<not> isCompliant (elems (Volumes (Spec p))) (annotation p label)"
  let ?key = "\<lambda>p. (Namespace p, Name p)"
  let ?w = "snd (pass quote env w)"
  have w': "?w = itemsLoop quote (deleteResult env) pods (emit ListPods w)"
    using assms(1,2) by (simp add: pass_ok)
  have n: "length (filter (\<lambda>p. ?key p = ?key pod \<and> ?broken p) pods) = (if ?broken pod then 1 else 0)"
    using assms(3,4) by (rule filter_key_distinct)
  have d: "count_list (trace ?w) (DeletePod (Namespace pod) (Name pod)) =
           count_list (trace w) (DeletePod (Namespace pod) (Name pod)) + (if ?broken pod then 1 else 0)"
    unfolding w' itemsLoop_deletes n by (simp add: emit_def)
  have i: "count_list (trace ?w) (IncDeletes (Namespace pod) (Name pod)) =
           count_list (trace w) (IncDeletes (Namespace pod) (Name pod)) + (if ?broken pod then 1 else 0)"
    unfolding w' itemsLoop_incs n by (simp add: emit_def)
  have c: "ctrDeletes ?w (Namespace pod, Name pod) =
           ctrDeletes w (Namespace pod, Name pod) + (if ?broken pod then 1 else 0)"
    unfolding w' itemsLoop_ctrDeletes n by (simp add: emit_def)
  show ?thesis
    unfolding d i c by (simp add: isCompliant_iff)
qed

theorem reconciler_remediation_witness:
  "clientResult listWorks = None \<and>
   listResult listWorks = Inr [worker1, mutated, bystander] \<and>
   distinct (map (\<lambda>p. (Namespace p, Name p)) [worker1, mutated, bystander]) \<and>
   annotation worker1 label \<noteq> [] \<and> elems (Volumes (Spec worker1)) = [] \<and>
   count_list (trace (snd (pass plainQuote listWorks w0))) (DeletePod ''default'' ''worker-1'') = 1 \<and>
   ctrDeletes (snd (pass plainQuote listWorks w0)) (''default'', ''worker-1'') = 1 \<and>
   count_list (trace (snd (pass plainQuote listWorks w0))) (DeletePod ''default'' ''worker-2'') = 0 \<and>
   ctrDeletes (snd (pass plainQuote listWorks w0)) (''default'', ''worker-2'') = 0 \<and>
   annotation bystander label = [] \<and>
   count_list (trace (snd (pass plainQuote listWorks w0))) (DeletePod ''default'' ''worker-3'') = 0 \<and>
   ctrDeletes (snd (pass plainQuote listWorks w0)) (''default'', ''worker-3'') = 0"
proof -
  have d: "distinct (map (\<lambda>p. (Namespace p, Name p)) [worker1, mutated, bystander])"
    by (simp add: example_keys)
  have m1: "worker1 \<in> set [worker1, mutated, bystander]"
    and m2: "mutated \<in> set [worker1, mutated, bystander]"
    and m3: "bystander \<in> set [worker1, mutated, bystander]" by simp_all
  have b1: "annotation worker1 label \<noteq> [] \<and>
     \<not> (\<exists>vol \<in> set (elems (Volumes (Spec worker1))).
          \<exists>src. Secret vol = Some src \<and> SecretName src = annotation worker1 label)"
    by (simp add: example_pods)
  have b2: "annotation mutated label = [] \<or>
     (\<exists>vol \<in> set (elems (Volumes (Spec mutated))).
          \<exists>src. Secret vol = Some src \<and> SecretName src = annotation mutated label)"
    by (simp add: example_pods)
  have b3: "annotation bystander label = [] \<or>
     (\<exists>vol \<in> set (elems (Volumes (Spec bystander))).
          \<exists>src. Secret vol = Some src \<and> SecretName src = annotation bystander label)"
    by (simp add: example_pods)
  from reconciler_remediation [OF listWorks_facts(1,2) d m1, of plainQuote w0] b1
  have r1: "count_list (trace (snd (pass plainQuote listWorks w0))) (DeletePod ''default'' ''worker-1'') = 1 \<and>
            ctrDeletes (snd (pass plainQuote listWorks w0)) (''default'', ''worker-1'') = 1"
    by (simp add: example_keys w0_def)
  from reconciler_remediation [OF listWorks_facts(1,2) d m2, of plainQuote w0] b2
  have r2: "count_list (trace (snd (pass plainQuote listWorks w0))) (DeletePod ''default'' ''worker-2'') = 0 \<and>
            ctrDeletes (snd (pass plainQuote listWorks w0)) (''default'', ''worker-2'') = 0"
    by (simp add: example_keys w0_def)
  from reconciler_remediation [OF listWorks_facts(1,2) d m3, of plainQuote w0] b3
  have r3: "count_list (trace (snd (pass plainQuote listWorks w0))) (DeletePod ''default'' ''worker-3'') = 0 \<and>
            ctrDeletes (snd (pass plainQuote listWorks w0)) (''default'', ''worker-3'') = 0"
    by (simp add: example_keys w0_def)
  from d r1 r2 r3 show ?thesis
    by (simp add: listWorks_facts example_pods)
qed

section \<open>The audit event\<close>

text \<open>
  Claim C9. A pass whose listing succeeds creates exactly one event for every listed pod,
  in the order of the listing, whether or not the pod has the trigger annotation or is
  compliant. The event is created in the pod's namespace; the object it refers to is built
  from the first owner reference (kind, name, UID and API version of the owner, namespace
  of the pod) when the pod has an owner reference, and from the pod's own identity
  otherwise.
\<close>

theorem one_event_per_pod:
  assumes "clientResult env = None" and "listResult env = Inr pods"
  shows "eventsOf (trace (snd (pass quote env w))) =
     eventsOf (trace w) @
     map (\<lambda>pod.
            (Namespace pod,
             \<lparr>InvolvedObject =
                (case elems (OwnerReferences pod) of
                   [] \<Rightarrow> \<lparr>refKind = Kind pod, refNamespace = Namespace pod, refName = Name pod,
                           refUID = UID pod, refAPIVersion = APIVersion pod,
                           refResourceVersion = ResourceVersion pod\<rparr>
                 | owner # others \<Rightarrow>
                     \<lparr>refKind = ownerKind owner, refNamespace = Namespace pod,
                      refName = ownerName owner, refUID = ownerUID owner,
                      refAPIVersion = ownerAPIVersion owner, refResourceVersion = []\<rparr>),
              Reason = ''Deleting pod'',
              Message = ''pod annotation on '' @ quote (Name pod) @
                        '' has not been applied by ca-injector mutatingadmissionwebhook''\<rparr>))
         pods"
proof -
  have e: "(\<lambda>pod. (Namespace pod, podEvent quote pod)) =
     (\<lambda>pod.
            (Namespace pod,
             \<lparr>InvolvedObject =
                (case elems (OwnerReferences pod) of
                   [] \<Rightarrow> \<lparr>refKind = Kind pod, refNamespace = Namespace pod, refName = Name pod,
                           refUID = UID pod, refAPIVersion = APIVersion pod,
                           refResourceVersion = ResourceVersion pod\<rparr>
                 | owner # others \<Rightarrow>
                     \<lparr>refKind = ownerKind owner, refNamespace = Namespace pod,
                      refName = ownerName owner, refUID = ownerUID owner,
                      refAPIVersion = ownerAPIVersion owner, refResourceVersion = []\<rparr>),
              Reason = ''Deleting pod'',
              Message = ''pod annotation on '' @ quote (Name pod) @
                        '' has not been applied by ca-injector mutatingadmissionwebhook''\<rparr>))"
    by (simp add: podEvent_def involved_def fun_eq_iff)
  have l: "eventsOf (trace (snd (pass quote env w))) =
     eventsOf (trace w) @ map (\<lambda>pod. (Namespace pod, podEvent quote pod)) pods"
    using assms by (simp add: pass_ok itemsLoop_events emit_def eventsOf_append)
  show ?thesis
    unfolding l e ..
qed

theorem one_event_per_pod_witness:
  "clientResult listWorks = None \<and>
   listResult listWorks = Inr [worker1, mutated, bystander] \<and>
   elems (OwnerReferences worker1) = [] \<and> elems (OwnerReferences mutated) = [replicaSet] \<and>
   map (\<lambda>(ns, ev). (ns, InvolvedObject ev)) (eventsOf (trace (snd (pass plainQuote listWorks w0)))) =
     [(''default'',
       \<lparr>refKind = ''Pod'', refNamespace = ''default'', refName = ''worker-1'',
        refUID = ''uid-1'', refAPIVersion = ''v1'', refResourceVersion = ''7''\<rparr>),
      (''default'',
       \<lparr>refKind = ''ReplicaSet'', refNamespace = ''default'', refName = ''worker'',
        refUID = ''uid-rs'', refAPIVersion = ''apps/v1'', refResourceVersion = []\<rparr>),
      (''default'',
       \<lparr>refKind = ''Pod'', refNamespace = ''default'', refName = ''worker-3'',
        refUID = ''uid-3'', refAPIVersion = ''v1'', refResourceVersion = ''7''\<rparr>)]"
proof -
  have o: "elems (OwnerReferences worker1) = []" "elems (OwnerReferences mutated) = [replicaSet]"
    "elems (OwnerReferences bystander) = []"
    by (simp_all add: worker1_def mutated_def bystander_def unmarked_def elems_def)
  from one_event_per_pod [OF listWorks_facts(1,2), of plainQuote w0] o
  show ?thesis
    by (simp add: listWorks_facts w0_def worker1_def mutated_def bystander_def unmarked_def
        replicaSet_def)
qed

section \<open>A failing delete call\<close>

text \<open>
  Claim C10. For a pod with the trigger annotation that is not compliant, the reconciler
  increments the deletion counter for the pod's namespace and name before it issues the
  delete call, and so exactly once whether or not the call returns an error; an error adds
  one log entry and nothing else, and the loop goes on with the pods that follow, each of
  which gets its event.
\<close>

theorem delete_error_is_logged:
  assumes "annotation pod label \<noteq> []"
    and "\<not> isCompliant (elems (Volumes (Spec pod))) (annotation pod label)"
  shows
   "trace (reconcilePod quote del pod w) =
      trace w @
      [CreateEvent (Namespace pod) (podEvent quote pod),
       LogInfo ''deleting pod; CA env and mount not found'',
       IncDeletes (Namespace pod) (Name pod),
       DeletePod (Namespace pod) (Name pod)] @
      (case del (Namespace pod) (Name pod) of
         None \<Rightarrow> []
       | Some err \<Rightarrow> [LogError ''error deleting pod'']) \<and>
    ctrDeletes (reconcilePod quote del pod w) (Namespace pod, Name pod) =
      ctrDeletes w (Namespace pod, Name pod) + 1 \<and>
    itemsLoop quote del (pod # others) w =
      itemsLoop quote del others (reconcilePod quote del pod w) \<and>
    eventsOf (trace (itemsLoop quote del (pod # others) w)) =
      eventsOf (trace w) @ (Namespace pod, podEvent quote pod) #
      map (\<lambda>next. (Namespace next, podEvent quote next)) others"
  using assms
  by (simp add: reconcilePod_trace reconcilePod_ctrDeletes itemsLoop_events eventsOf_append
      split: option.splits)

theorem delete_error_is_logged_witness:
  "annotation worker1 label \<noteq> [] \<and>
   \<not> isCompliant (elems (Volumes (Spec worker1))) (annotation worker1 label) \<and>
   failDelete (Namespace worker1) (Name worker1) = Some ''pods not found'' \<and>
   trace (reconcilePod plainQuote failDelete worker1 w0) =
     [CreateEvent ''default'' (podEvent plainQuote worker1),
      LogInfo ''deleting pod; CA env and mount not found'',
      IncDeletes ''default'' ''worker-1'',
      DeletePod ''default'' ''worker-1'',
      LogError ''error deleting pod''] \<and>
   ctrDeletes (reconcilePod plainQuote failDelete worker1 w0) (''default'', ''worker-1'') = 1 \<and>
   map fst (eventsOf (trace (itemsLoop plainQuote failDelete [worker1, mutated] w0))) =
     [''default'', ''default'']"
proof -
  have a: "annotation worker1 label \<noteq> []" by (simp add: example_pods)
  have b: "\<not> isCompliant (elems (Volumes (Spec worker1))) (annotation worker1 label)"
    by (simp add: example_pods)
  from delete_error_is_logged [OF a b, of plainQuote failDelete w0 "[mutated]"] a b
  show ?thesis
    by (simp add: example_keys failDelete_def w0_def)
qed

section \<open>A failing listing\<close>

text \<open>
  Claim C7 as stated, at a run of two passes where the listing of the first pass fails and
  that of the second would succeed: the process ends with exit status 1 in the first pass,
  and the second pass never lists.
\<close>

theorem listing_failure_counterexample:
  "clientResult listFails = None \<and>
   listResult listFails = Inl ''connection refused'' \<and>
   listResult listWorks = Inr [worker1, mutated, bystander] \<and>
   fst (reconciler plainQuote [listFails, listWorks] w0) = Exited 1 \<and>
   fst (reconciler plainQuote [listFails, listWorks] w0) \<noteq> Running \<and>
   trace (snd (reconciler plainQuote [listFails, listWorks] w0)) =
     [Sleep 5, ListPods, LogFatal ''error listing pods'']"
  by (simp add: reconciler_def pass_def listFails_def listWorks_def w0_def emit_def)

text \<open>
  Claim C7, amended. When the cluster-wide listing of a pass fails, no pod is processed:
  the pass writes a fatal log entry and the process terminates with exit status 1; no
  later pass runs, and the counters are left as they were.
\<close>

theorem listing_failure_is_fatal:
  assumes "clientResult env = None" and "listResult env = Inl err"
  shows "passes quote f (env # envs) w =
     (Exited 1,
      w\<lparr>trace := trace w @ (if f then [Sleep 60] else []) @
                  [ListPods, LogFatal ''error listing pods'']\<rparr>)"
  using assms by (simp add: pass_def emit_def)

theorem listing_failure_is_fatal_witness:
  "clientResult listFails = None \<and>
   listResult listFails = Inl ''connection refused'' \<and>
   fst (passes plainQuote True [listFails, listWorks] w0) = Exited 1 \<and>
   trace (snd (passes plainQuote True [listFails, listWorks] w0)) =
     [Sleep 60, ListPods, LogFatal ''error listing pods''] \<and>
   ctrDeletes (snd (passes plainQuote True [listFails, listWorks] w0)) (''default'', ''worker-1'') = 0"
proof -
  have a: "clientResult listFails = None" by (simp add: listFails_def)
  have b: "listResult listFails = Inl ''connection refused''" by (simp add: listFails_def)
  from listing_failure_is_fatal [OF a b, of plainQuote True "[listWorks]" w0] a b
  show ?thesis by (simp add: w0_def)
qed

end
